theory Spec2Isabelle
  imports Main "HOL-Library.AList"
begin

section \<open>Strings as the scripts use them\<close>

text \<open>
  The scripts are Python; their names, pages and export texts are \<open>str\<close> values.
  They are modelled as \<open>string\<close> (a list of characters) and the model is about ASCII
  text: \<open>lower\<close> maps \<open>A\<close>..\<open>Z\<close> to \<open>a\<close>..\<open>z\<close> and leaves every other character
  alone, whitespace is the ASCII whitespace of \<open>str.isspace\<close>. What Python does on
  code points above 127 is outside the model. Integers are Python's unbounded \<open>int\<close>.
\<close>

definition lower_char :: "char \<Rightarrow> char" where
  "lower_char c =
     (case map_of (zip ''ABCDEFGHIJKLMNOPQRSTUVWXYZ'' ''abcdefghijklmnopqrstuvwxyz'') c of
        None \<Rightarrow> c
      | Some d \<Rightarrow> d)"

definition lower :: "string \<Rightarrow> string" where
  "lower s = map lower_char s"

definition isspace :: "char \<Rightarrow> bool" where
  "isspace c = (c \<in> set [CHR 0x09, CHR 0x0A, CHR 0x0B, CHR 0x0C, CHR 0x0D,
                          CHR 0x1C, CHR 0x1D, CHR 0x1E, CHR 0x1F, CHR 0x20])"

definition strip :: "string \<Rightarrow> string" where
  "strip s = rev (dropWhile isspace (rev (dropWhile isspace s)))"

text \<open>\<open>s.startswith(sub)\<close>.\<close>

fun startswith :: "string \<Rightarrow> string \<Rightarrow> bool" where
  "startswith s [] = True"
| "startswith [] (c # cs) = False"
| "startswith (x # xs) (c # cs) = (x = c \<and> startswith xs cs)"

text \<open>\<open>sub in s\<close>: \<open>sub\<close> occurs in \<open>s\<close> as a contiguous piece.\<close>

fun str_in :: "string \<Rightarrow> string \<Rightarrow> bool" where
  "str_in sub [] = (sub = [])"
| "str_in sub (x # xs) = (startswith (x # xs) sub \<or> str_in sub xs)"

text \<open>\<open>s.find(sub)\<close>: the lowest index at which \<open>sub\<close> occurs in \<open>s\<close>, or \<open>-1\<close>.\<close>

fun find_from :: "nat \<Rightarrow> string \<Rightarrow> string \<Rightarrow> int" where
  "find_from i [] sub = (if sub = [] then int i else - 1)"
| "find_from i (x # xs) sub =
     (if startswith (x # xs) sub then int i else find_from (Suc i) xs sub)"

definition str_find :: "string \<Rightarrow> string \<Rightarrow> int" where
  "str_find s sub = find_from 0 s sub"

section \<open>The remote source client\<close>

text \<open>
  What \<open>session.get(url, timeout=30)\<close> can give: it raises a
  \<open>requests.RequestException\<close> (connection error, timeout, ...), or it returns a
  response with its \<open>ok\<close> flag and its \<open>text\<close>.
\<close>

datatype http_outcome = RequestException | Response bool string

text \<open>
  \<open>fetch_list_html(session, match_id)\<close>: the page of a match, or \<open>None\<close>. The
  argument is the outcome of the one request the function makes.
\<close>

fun fetch_list_html :: "http_outcome \<Rightarrow> string option" where
  "fetch_list_html RequestException = None"
| "fetch_list_html (Response ok txt) =
     (if \<not> ok \<or> str_in ''Please Login'' txt then None else Some txt)"

section \<open>Aligning observed scores with a record\<close>

text \<open>
  \<open>map_scores(player, opponent, left_name, right_name, left_score, right_score,
  switched_flag)\<close>: the pair (player's score, opponent's score), or \<open>None\<close> when the
  names cannot be aligned.
\<close>

definition map_scores ::
  "string \<Rightarrow> string \<Rightarrow> string \<Rightarrow> string \<Rightarrow> int \<Rightarrow> int \<Rightarrow> bool \<Rightarrow> (int \<times> int) option" where
  "map_scores player opponent left_name right_name left_score right_score switched_flag =
     (let ln = lower (strip left_name);
          rn = lower (strip right_name);
          pn = lower (strip player);
          on = lower (strip opponent)
      in if switched_flag then Some (right_score, left_score)
         else if ln = pn \<and> rn = on then Some (left_score, right_score)
         else if ln = on \<and> rn = pn then Some (right_score, left_score)
         else if str_in pn ln \<or> str_in pn rn \<or> str_in on ln \<or> str_in on rn then
           (if str_in pn ln then Some (left_score, right_score)
            else if str_in pn rn then Some (right_score, left_score)
            else None)
         else None)"

section \<open>The record store\<close>

text \<open>
  A row of the \<open>matches\<close> table, with the two names its queries always join in from
  \<open>players\<close> (\<open>p1.player_name\<close> for \<open>player_id\<close>, \<open>p2.player_name\<close> for
  \<open>opponent_id\<close>) and the player's \<open>dg_player_id\<close>. \<open>pk\<close> is the column \<open>id\<close>.
  \<open>left_score\<close> is the score of the record's player, \<open>right_score\<close> the score of its
  opponent. NULL is \<open>None\<close>. Every insert of the repository writes
  \<open>switched_flag = false\<close>, so the flag is a \<open>bool\<close>. The column \<open>match_link\<close>, a
  URL made from the match id, is left out.

  The table is the list of its rows; \<open>cur.fetchone()\<close> gives the first row that the
  query selects, an \<open>UPDATE\<close> changes every row its \<open>WHERE\<close> selects. Database
  errors are outside the model: it describes the runs in which every statement succeeds,
  but for the one place where the code goes on after a failed write (the candidate loop of
  \<open>process_groups\<close>).
\<close>

record match_row =
  pk :: int
  group_id :: int
  player_name :: string
  opponent_name :: string
  dg_player_id :: "int option"
  match_id :: "int option"
  left_score :: "int option"
  right_score :: "int option"
  switched_flag :: bool
  finished :: bool

text \<open>
  \<open>update_score_in_db(player_name, opponent_name, player_score, opponent_score,
  switched_flag)\<close> for the group \<open>GROUP_ID\<close>: the returned flag and the table after
  the call. The last parameter is not used by the function.
\<close>

definition update_score_in_db ::
  "int \<Rightarrow> match_row list \<Rightarrow> string \<Rightarrow> string \<Rightarrow> int \<Rightarrow> int \<Rightarrow> bool \<Rightarrow> bool \<times> match_row list" where
  "update_score_in_db GROUP_ID db player opponent player_score opponent_score switched =
     (case find (\<lambda>m. player_name m = player \<and> opponent_name m = opponent \<and>
                      group_id m = GROUP_ID) db of
        None \<Rightarrow> (False, db)
      | Some row \<Rightarrow>
          if left_score row = Some 11 \<or> right_score row = Some 11 then (False, db)
          else (True,
                map (\<lambda>m. if pk m = pk row
                          then m\<lparr>left_score := Some player_score,
                                 right_score := Some opponent_score\<rparr>
                          else m) db))"

section \<open>One run of the dashboard script\<close>

text \<open>
  The state a run threads through its steps: the table, the dictionary \<open>html_cache\<close>
  (a key may be present with the value \<open>None\<close>), and the list of the match ids whose
  page was requested from the remote source, in the order of the requests.
\<close>

record run_state =
  db :: "match_row list"
  html_cache :: "int \<rightharpoonup> string option"
  requests :: "int list"

text \<open>
  The remote source is a function from the number of page requests made so far and the
  match id to the outcome of the request, so that two requests for one id may differ.
\<close>

definition fetch_page ::
  "(nat \<Rightarrow> int \<Rightarrow> http_outcome) \<Rightarrow> int \<Rightarrow> run_state \<Rightarrow> string option \<times> run_state" where
  "fetch_page net mid st =
     (fetch_list_html (net (length (requests st)) mid),
      st\<lparr>requests := requests st @ [mid]\<rparr>)"

text \<open>\<open>html_cache.get(match_id)\<close> and the test \<open>not html\<close>.\<close>

definition cache_get :: "(int \<rightharpoonup> string option) \<Rightarrow> int \<Rightarrow> string option" where
  "cache_get cache mid = (case cache mid of None \<Rightarrow> None | Some h \<Rightarrow> h)"

definition not_html :: "string option \<Rightarrow> bool" where
  "not_html h = (h = None \<or> h = Some [])"

text \<open>
  The dictionary \<open>match_id_to_db\<close>: match id to (player name, opponent name, switched
  flag), in insertion order, built from the rows of the group that have a match id.
\<close>

type_synonym entry = "string \<times> string \<times> bool"

definition build_match_id_to_db :: "int \<Rightarrow> match_row list \<Rightarrow> (int \<times> entry) list" where
  "build_match_id_to_db GROUP_ID rows =
     fold (\<lambda>m d. case match_id m of
                    None \<Rightarrow> d
                  | Some mid \<Rightarrow> AList.update mid (player_name m, opponent_name m, switched_flag m) d)
          (filter (\<lambda>m. group_id m = GROUP_ID) rows) []"

text \<open>
  Step 1, first loop: the ids of \<open>match_id_to_db\<close> that are neither a key of
  \<open>html_cache\<close> nor of \<open>finished_by_id\<close> are fetched and cached.
\<close>

definition to_fetch_ids :: "(int \<times> entry) list \<Rightarrow> run_state \<Rightarrow> int list \<Rightarrow> int list" where
  "to_fetch_ids match_id_to_db st finished_ids =
     filter (\<lambda>mid. html_cache st mid = None \<and> mid \<notin> set finished_ids) (map fst match_id_to_db)"

definition fetch_into_cache :: "(nat \<Rightarrow> int \<Rightarrow> http_outcome) \<Rightarrow> int \<Rightarrow> run_state \<Rightarrow> run_state" where
  "fetch_into_cache net mid st =
     (let (html, st') = fetch_page net mid st
      in st'\<lparr>html_cache := (html_cache st')(mid \<mapsto> html)\<rparr>)"

definition prefetch ::
  "(nat \<Rightarrow> int \<Rightarrow> http_outcome) \<Rightarrow> (int \<times> entry) list \<Rightarrow> int list \<Rightarrow> run_state \<Rightarrow> run_state" where
  "prefetch net match_id_to_db finished_ids st =
     fold (fetch_into_cache net) (to_fetch_ids match_id_to_db st finished_ids) st"

text \<open>
  An observation is what \<open>extract_latest_score\<close> returns: left name, right name, left
  score, right score. The function parses HTML with a library; it is a parameter
  \<open>extract\<close> of the model, from the page and the list of known names to an observation or
  \<open>None\<close>.

  Step 1, second loop, for one entry of \<open>match_id_to_db\<close>: the entry after the
  iteration. The third component of the observation is an integer there, so the test
  \<open>status == "finished"\<close> is never true and \<open>finished_by_id\<close> stays as it is; the
  dictionaries \<open>matches\<close> and \<open>matches_by_hand\<close> are only written, and left out.
\<close>

type_synonym observation = "string \<times> string \<times> int \<times> int"

definition evaluate_match ::
  "(string \<Rightarrow> string list \<Rightarrow> observation option) \<Rightarrow> (int \<rightharpoonup> string option) \<Rightarrow> int list \<Rightarrow>
   int \<times> entry \<Rightarrow> int \<times> entry" where
  "evaluate_match extract cache finished_ids e =
     (case e of (mid, player, opponent, switched) \<Rightarrow>
        if mid \<in> set finished_ids then e
        else case cache_get cache mid of
               None \<Rightarrow> e
             | Some html \<Rightarrow>
                 if html = [] then e
                 else case extract html [player, opponent] of
                        None \<Rightarrow> e
                      | Some (left_name, right_name, status, other) \<Rightarrow>
                          (let ln = lower left_name; rn = lower right_name;
                               pn = lower player; on = lower opponent
                           in if ln = pn \<and> rn = on then (mid, player, opponent, False)
                              else if ln = on \<and> rn = pn then (mid, player, opponent, True)
                              else (mid, player, opponent, False)))"

text \<open>
  The score loop (\<open>Iterate over matches and refresh scores from HTML\<close>), one
  iteration: the state after it.
\<close>

definition score_step ::
  "int \<Rightarrow> (nat \<Rightarrow> int \<Rightarrow> http_outcome) \<Rightarrow> (string \<Rightarrow> string list \<Rightarrow> observation option) \<Rightarrow>
   string list \<Rightarrow> int \<times> entry \<Rightarrow> run_state \<Rightarrow> run_state" where
  "score_step GROUP_ID net extract players_in_matches e st =
     (case e of (mid, db_player, db_opponent, switched) \<Rightarrow>
        if (case find (\<lambda>m. match_id m = Some mid \<and> player_name m = db_player \<and>
                            opponent_name m = db_opponent \<and> group_id m = GROUP_ID) (db st) of
              Some row \<Rightarrow> left_score row = Some 11 \<or> right_score row = Some 11
            | None \<Rightarrow> False)
        then st
        else
          let st1 = (if not_html (cache_get (html_cache st) mid)
                     then fetch_into_cache net mid st else st)
          in case cache_get (html_cache st1) mid of
               None \<Rightarrow> st1
             | Some html \<Rightarrow>
                 if html = [] then st1
                 else case extract html players_in_matches of
                        None \<Rightarrow> st1
                      | Some (left_name, right_name, l, r) \<Rightarrow>
                          (case map_scores db_player db_opponent left_name right_name l r
                                  switched of
                             None \<Rightarrow> st1
                           | Some (player_score, opponent_score) \<Rightarrow>
                               st1\<lparr>db := snd (update_score_in_db GROUP_ID (db st1) db_player
                                                 db_opponent player_score opponent_score
                                                 switched)\<rparr>))"

definition score_loop ::
  "int \<Rightarrow> (nat \<Rightarrow> int \<Rightarrow> http_outcome) \<Rightarrow> (string \<Rightarrow> string list \<Rightarrow> observation option) \<Rightarrow>
   string list \<Rightarrow> (int \<times> entry) list \<Rightarrow> run_state \<Rightarrow> run_state" where
  "score_loop GROUP_ID net extract players_in_matches match_id_to_db st =
     fold (score_step GROUP_ID net extract players_in_matches) match_id_to_db st"

section \<open>Winner detection and the final results\<close>

text \<open>
  \<open>str.splitlines()\<close> on ASCII text: a line ends at \<open>\n\<close>, \<open>\r\<close>, \<open>\r\n\<close>,
  \<open>\v\<close>, \<open>\f\<close> and the separators \<open>0x1C\<close>..\<open>0x1E\<close>; a last line without an end
  counts when it is not empty. The flag says that the previous character was \<open>\r\<close>.
\<close>

definition is_linebreak :: "char \<Rightarrow> bool" where
  "is_linebreak c = (c \<in> set [CHR 0x0A, CHR 0x0B, CHR 0x0C, CHR 0x0D,
                              CHR 0x1C, CHR 0x1D, CHR 0x1E])"

fun split_from :: "bool \<Rightarrow> string \<Rightarrow> string \<Rightarrow> string list" where
  "split_from after_cr cur [] = (if cur = [] then [] else [rev cur])"
| "split_from after_cr cur (c # cs) =
     (if after_cr \<and> c = CHR 0x0A then split_from False cur cs
      else if is_linebreak c then rev cur # split_from (c = CHR 0x0D) [] cs
      else split_from False (c # cur) cs)"

definition splitlines :: "string \<Rightarrow> string list" where
  "splitlines s = split_from False [] s"

text \<open>
  The winner heuristic of Phase 1: the lines are read from the last to the first, the
  first line with both \<open>and the match\<close> and \<open>Wins\<close> decides and ends the loop.
\<close>

definition mid_threshold :: int where
  "mid_threshold = 24"

definition result_line :: "string \<Rightarrow> bool" where
  "result_line line = (str_in ''and the match'' line \<and> str_in ''Wins'' line)"

fun scan_for_winner :: "string \<Rightarrow> string \<Rightarrow> string list \<Rightarrow> string option" where
  "scan_for_winner player opponent [] = None"
| "scan_for_winner player opponent (line # rest) =
     (if result_line line
      then Some (if str_find line ''Wins'' < mid_threshold then player else opponent)
      else scan_for_winner player opponent rest)"

definition detect_winner :: "string \<Rightarrow> string \<Rightarrow> string list \<Rightarrow> string option" where
  "detect_winner player opponent text_lines = scan_for_winner player opponent (rev text_lines)"

text \<open>
  The dictionary \<open>all_match_ids\<close> (match id to player and opponent) and the loop of
  Phase 1 over it. \<open>export\<close> gives the outcome of the request for the export page of an
  id; \<open>raise_for_status()\<close> raises for a response that is not OK, and every
  \<open>RequestException\<close> skips the id. A winner is saved in \<open>finished_by_id\<close> when it is
  a non-empty name (\<open>if winner:\<close>). No entry has a winner when the loop starts, so its
  first test never skips.
\<close>

definition build_all_match_ids :: "int \<Rightarrow> match_row list \<Rightarrow> (int \<times> string \<times> string) list" where
  "build_all_match_ids GROUP_ID rows =
     fold (\<lambda>m d. case match_id m of
                    None \<Rightarrow> d
                  | Some mid \<Rightarrow> AList.update mid (player_name m, opponent_name m) d)
          (filter (\<lambda>m. group_id m = GROUP_ID) rows) []"

definition export_winner :: "string \<Rightarrow> string \<Rightarrow> http_outcome \<Rightarrow> string option" where
  "export_winner player opponent h =
     (case h of
        RequestException \<Rightarrow> None
      | Response ok txt \<Rightarrow>
          if \<not> ok then None else detect_winner player opponent (splitlines txt))"

definition winner_step ::
  "(int \<Rightarrow> http_outcome) \<Rightarrow> int \<times> string \<times> string \<Rightarrow> (int \<times> string) list \<Rightarrow> (int \<times> string) list" where
  "winner_step export e finished_by_id =
     (case e of (mid, player, opponent) \<Rightarrow>
        (case export_winner player opponent (export mid) of
           None \<Rightarrow> finished_by_id
         | Some winner \<Rightarrow>
             if winner = [] then finished_by_id else AList.update mid winner finished_by_id))"

definition winner_phase ::
  "(int \<Rightarrow> http_outcome) \<Rightarrow> (int \<times> string \<times> string) list \<Rightarrow> (int \<times> string) list \<Rightarrow> (int \<times> string) list" where
  "winner_phase export all_match_ids finished_by_id =
     fold (winner_step export) all_match_ids finished_by_id"

text \<open>
  Phase 2: \<open>UPDATE matches SET col = 11, finished = TRUE WHERE match_id = ...\<close>, and the
  loop over \<open>finished_by_id\<close> that chooses the column.
\<close>

datatype score_column = Left_score | Right_score

definition set_winner :: "score_column \<Rightarrow> int \<Rightarrow> match_row list \<Rightarrow> match_row list" where
  "set_winner col mid rows =
     map (\<lambda>m. if match_id m = Some mid
               then (case col of
                       Left_score \<Rightarrow> m\<lparr>left_score := Some 11, finished := True\<rparr>
                     | Right_score \<Rightarrow> m\<lparr>right_score := Some 11, finished := True\<rparr>)
               else m) rows"

definition final_step :: "int \<times> string \<Rightarrow> match_row list \<Rightarrow> match_row list" where
  "final_step e rows =
     (case e of (mid, winner_name) \<Rightarrow>
        (case find (\<lambda>m. match_id m = Some mid) rows of
           None \<Rightarrow> rows
         | Some row \<Rightarrow>
             if winner_name = player_name row
             then set_winner (if \<not> switched_flag row then Left_score else Right_score) mid rows
             else if winner_name = opponent_name row
             then set_winner (if \<not> switched_flag row then Right_score else Left_score) mid rows
             else rows))"

definition final_results :: "(int \<times> string) list \<Rightarrow> match_row list \<Rightarrow> match_row list" where
  "final_results finished_by_id rows = fold final_step finished_by_id rows"

text \<open>
  \<open>update_match_score_in_db(match_id, winner_name, conn, group_id=None)\<close>, the same
  write as a function, with the optional restriction of the lookup to one group.
\<close>

definition update_match_score_in_db ::
  "int \<Rightarrow> string \<Rightarrow> int option \<Rightarrow> match_row list \<Rightarrow> match_row list" where
  "update_match_score_in_db mid winner_name gid rows =
     (case find (\<lambda>m. match_id m = Some mid \<and>
                      (case gid of None \<Rightarrow> True | Some g \<Rightarrow> group_id m = g)) rows of
        None \<Rightarrow> rows
      | Some row \<Rightarrow>
          if winner_name = player_name row
          then set_winner (if \<not> switched_flag row then Left_score else Right_score) mid rows
          else if winner_name = opponent_name row
          then set_winner (if \<not> switched_flag row then Right_score else Left_score) mid rows
          else rows)"

section \<open>Discovery of missing match ids\<close>

text \<open>
  A candidate is a pair (opponent name, match id as text), as \<open>get_player_matches\<close>
  returns it; the id is a run of digits cut out by a regular expression. \<open>int_of_str\<close>
  is \<open>int(...)\<close> on such text, and \<open>None\<close> where the text is not a non-empty run of
  ASCII digits (the code skips the candidate when \<open>int\<close> raises).
\<close>

definition digit_of :: "char \<Rightarrow> int option" where
  "digit_of c = map_of (zip ''0123456789'' [0, 1, 2, 3, 4, 5, 6, 7, 8, 9]) c"

fun parse_digits :: "int \<Rightarrow> string \<Rightarrow> int option" where
  "parse_digits acc [] = Some acc"
| "parse_digits acc (c # cs) =
     (case digit_of c of None \<Rightarrow> None | Some d \<Rightarrow> parse_digits (10 * acc + d) cs)"

definition int_of_str :: "string \<Rightarrow> int option" where
  "int_of_str s = (if s = [] then None else parse_digits 0 s)"

text \<open>
  The candidate loop of \<open>process_groups\<close> (script \<open>find_match_ids2\<close>) for one row
  without a match id: \<open>match_pk\<close>, \<open>player_name_db\<close>, \<open>opponent_name_db\<close> are the
  row's, \<open>existing\<close> is \<open>existing_match_ids\<close>. \<open>fails mid\<close> says that the write of
  \<open>mid\<close> raises; the code reports it and goes on with the next candidate
  (\<open>save_candidate\<close> is \<open>None\<close> then). The result is \<open>saved\<close>, the table and the
  existing ids; a dry run (\<open>do_commit\<close> false) writes nothing and ends the loop as well.
\<close>

definition attach :: "int \<Rightarrow> int \<Rightarrow> bool \<Rightarrow> match_row list \<Rightarrow> match_row list" where
  "attach match_pk mid switched rows =
     map (\<lambda>m. if pk m = match_pk then m\<lparr>match_id := Some mid, switched_flag := switched\<rparr> else m)
       rows"

definition save_candidate ::
  "bool \<Rightarrow> (int \<Rightarrow> bool) \<Rightarrow> int \<Rightarrow> int \<Rightarrow> bool \<Rightarrow> match_row list \<Rightarrow> int set \<Rightarrow>
   (bool \<times> match_row list \<times> int set) option" where
  "save_candidate do_commit fails match_pk mid switched rows existing =
     (if do_commit
      then (if fails mid then None
            else Some (True, attach match_pk mid switched rows, insert mid existing))
      else Some (True, rows, existing))"

fun candidate_loop ::
  "bool \<Rightarrow> (int \<Rightarrow> bool) \<Rightarrow> int \<Rightarrow> string \<Rightarrow> string \<Rightarrow> (string \<times> string) list \<Rightarrow>
   match_row list \<Rightarrow> int set \<Rightarrow> bool \<times> match_row list \<times> int set" where
  "candidate_loop do_commit fails match_pk player_name_db opponent_name_db [] rows existing =
     (False, rows, existing)"
| "candidate_loop do_commit fails match_pk player_name_db opponent_name_db
       ((opponent_name_dg, match_id_str) # rest) rows existing =
     (case int_of_str match_id_str of
        None \<Rightarrow>
          candidate_loop do_commit fails match_pk player_name_db opponent_name_db rest rows existing
      | Some mid \<Rightarrow>
          if mid \<in> existing
          then candidate_loop do_commit fails match_pk player_name_db opponent_name_db rest rows
                 existing
          else if lower (strip opponent_name_dg) = lower (strip opponent_name_db)
          then (case save_candidate do_commit fails match_pk mid False rows existing of
                  None \<Rightarrow> candidate_loop do_commit fails match_pk player_name_db
                            opponent_name_db rest rows existing
                | Some saved \<Rightarrow> saved)
          else if lower (strip opponent_name_dg) = lower (strip player_name_db)
          then (case save_candidate do_commit fails match_pk mid True rows existing of
                  None \<Rightarrow> candidate_loop do_commit fails match_pk player_name_db
                            opponent_name_db rest rows existing
                | Some saved \<Rightarrow> saved)
          else candidate_loop do_commit fails match_pk player_name_db opponent_name_db rest rows
                 existing)"

text \<open>
  The candidate loop of the dashboard script (\<open>Step 2: Fill missing match IDs\<close>) for
  one row without a match id: it writes the match id alone.
\<close>

fun fill_missing ::
  "int \<Rightarrow> string \<Rightarrow> (string \<times> string) list \<Rightarrow> match_row list \<Rightarrow> int set \<Rightarrow>
   match_row list \<times> int set" where
  "fill_missing match_pk opponent_name_db [] rows existing = (rows, existing)"
| "fill_missing match_pk opponent_name_db ((opponent_name_dg, match_id_str) # rest) rows existing =
     (if lower (strip opponent_name_dg) \<noteq> lower (strip opponent_name_db)
      then fill_missing match_pk opponent_name_db rest rows existing
      else case int_of_str match_id_str of
             None \<Rightarrow> fill_missing match_pk opponent_name_db rest rows existing
           | Some mid \<Rightarrow>
               if mid \<in> existing
               then fill_missing match_pk opponent_name_db rest rows existing
               else (map (\<lambda>m. if pk m = match_pk then m\<lparr>match_id := Some mid\<rparr> else m) rows,
                     insert mid existing))"

text \<open>
  A candidate that the loop of \<open>process_groups\<close> accepts for a row: its id is a number
  that is not among the existing ids, and its name equals the opponent's or the player's
  name of the row, both compared after \<open>strip()\<close> and \<open>lower()\<close>.
\<close>

definition acceptable :: "string \<Rightarrow> string \<Rightarrow> int set \<Rightarrow> string \<times> string \<Rightarrow> bool" where
  "acceptable player_name_db opponent_name_db existing c =
     (case int_of_str (snd c) of
        None \<Rightarrow> False
      | Some mid \<Rightarrow>
          mid \<notin> existing \<and>
          (lower (strip (fst c)) = lower (strip opponent_name_db) \<or>
           lower (strip (fst c)) = lower (strip player_name_db)))"

section \<open>A whole run, and a record to try things on\<close>

text \<open>
  The dashboard script from \<open>Build mapping directly from Neon DB\<close> to the end of
  Phase 2, on a table: both dictionaries \<open>html_cache\<close> and \<open>finished_by_id\<close> start
  empty. \<open>players_in_matches\<close> is the sorted list of the names of the group's players,
  which the script reads from the table and only hands to \<open>extract_latest_score\<close>.
\<close>

definition run_cycle ::
  "int \<Rightarrow> (nat \<Rightarrow> int \<Rightarrow> http_outcome) \<Rightarrow> (int \<Rightarrow> http_outcome) \<Rightarrow>
   (string \<Rightarrow> string list \<Rightarrow> observation option) \<Rightarrow> string list \<Rightarrow> match_row list \<Rightarrow> run_state" where
  "run_cycle GROUP_ID net export extract players_in_matches rows =
     (let st0 = \<lparr>db = rows, html_cache = Map.empty, requests = []\<rparr>;
          match_id_to_db = build_match_id_to_db GROUP_ID rows;
          st1 = prefetch net match_id_to_db [] st0;
          match_id_to_db' = map (evaluate_match extract (html_cache st1) []) match_id_to_db;
          finished_by_id = winner_phase export (build_all_match_ids GROUP_ID rows) [];
          st2 = score_loop GROUP_ID net extract players_in_matches match_id_to_db' st1
      in st2\<lparr>db := final_results finished_by_id (db st2)\<rparr>)"

text \<open>
  The record of the scenarios: Alice (player) against Bob (opponent) in group 1, with the
  remote match id 12345; scores, switched flag and finished flag are given.
\<close>

definition alice_bob :: "int option \<Rightarrow> int option \<Rightarrow> bool \<Rightarrow> bool \<Rightarrow> match_row" where
  "alice_bob l r sw fin =
     \<lparr>pk = 1, group_id = 1, player_name = ''Alice'', opponent_name = ''Bob'',
      dg_player_id = Some 10, match_id = Some 12345, left_score = l, right_score = r,
      switched_flag = sw, finished = fin\<rparr>"

section \<open>Facts about the string functions\<close>

lemma startswith_iff: "startswith s sub \<longleftrightarrow> (\<exists>q. s = sub @ q)"
  by (induction s sub rule: startswith.induct) auto

lemma str_in_iff: "str_in sub s \<longleftrightarrow> (\<exists>p q. s = p @ sub @ q)"
proof (induction s)
  case Nil
  then show ?case by auto
next
  case (Cons x xs)
  show ?case
  proof
    assume "str_in sub (x # xs)"
    then consider "startswith (x # xs) sub" | "str_in sub xs" by auto
    then show "\<exists>p q. x # xs = p @ sub @ q"
    proof cases
      case 1
      then obtain q where "x # xs = sub @ q" by (auto simp: startswith_iff)
      then have "x # xs = [] @ sub @ q" by simp
      then show ?thesis by blast
    next
      case 2
      then obtain p q where "xs = p @ sub @ q" using Cons.IH by blast
      then have "x # xs = (x # p) @ sub @ q" by simp
      then show ?thesis by blast
    qed
  next
    assume "\<exists>p q. x # xs = p @ sub @ q"
    then obtain p q where pq: "x # xs = p @ sub @ q" by blast
    show "str_in sub (x # xs)"
    proof (cases p)
      case Nil
      then have "startswith (x # xs) sub" using pq by (auto simp: startswith_iff)
      then show ?thesis by simp
    next
      case (Cons y ys)
      then have "xs = ys @ sub @ q" using pq by simp
      then have "str_in sub xs" using Cons.IH by blast
      then show ?thesis by simp
    qed
  qed
qed

lemma find_from_range:
  "find_from i s sub = - 1 \<or> (int i \<le> find_from i s sub \<and> find_from i s sub \<le> int i + int (length s))"
  by (induction i s sub rule: find_from.induct) auto

lemma find_from_in: "str_in sub s \<longleftrightarrow> find_from i s sub \<noteq> - 1"
proof (induction i s sub rule: find_from.induct)
  case (1 i sub)
  then show ?case by simp
next
  case (2 i x xs sub)
  then show ?case by auto
qed

lemma str_find_in: "str_in sub s \<longleftrightarrow> 0 \<le> str_find s sub"
  using find_from_in [of sub s 0] find_from_range [of 0 s sub]
  by (auto simp: str_find_def)

lemma map_scores_cases:
  "map_scores p opp lname rname l r sw =
     (if sw then Some (r, l)
      else if lower (strip lname) = lower (strip p) \<and> lower (strip rname) = lower (strip opp)
        then Some (l, r)
      else if lower (strip lname) = lower (strip opp) \<and> lower (strip rname) = lower (strip p)
        then Some (r, l)
      else if str_in (lower (strip p)) (lower (strip lname)) then Some (l, r)
      else if str_in (lower (strip p)) (lower (strip rname)) then Some (r, l)
      else None)"
  unfolding map_scores_def Let_def
  by (simp split: if_splits cong: if_cong)

section \<open>The remote source client: absence\<close>

text \<open>
  C9. Fetching a match page gives \<open>None\<close>, and raises nothing, when the request
  raises a \<open>RequestException\<close>, when the response is not OK, and when the page
  contains \<open>Please Login\<close>; it gives the page text exactly for an OK response without
  that marker.
\<close>

theorem fetch_list_html_absent:
  "(fetch_list_html h = None \<longleftrightarrow>
      h = RequestException \<or> (\<exists>b t. h = Response b t \<and> (\<not> b \<or> str_in ''Please Login'' t))) \<and>
   (fetch_list_html h = Some page \<longleftrightarrow>
      h = Response True page \<and> \<not> str_in ''Please Login'' page)"
  by (cases h) auto

theorem fetch_list_html_absent_witness:
  "fetch_list_html RequestException = None \<and>
   fetch_list_html (Response False ''<tr>Alice : 3</tr>'') = None \<and>
   fetch_list_html (Response True ''<b>Please Login</b>'') = None \<and>
   fetch_list_html (Response True ''<tr>Alice : 3</tr>'') = Some ''<tr>Alice : 3</tr>''"
  using fetch_list_html_absent [of RequestException "''x''"]
    fetch_list_html_absent [of "Response False ''<tr>Alice : 3</tr>''" "''x''"]
    fetch_list_html_absent [of "Response True ''<b>Please Login</b>''" "''x''"]
    fetch_list_html_absent [of "Response True ''<tr>Alice : 3</tr>''" "''<tr>Alice : 3</tr>''"]
  by simp

section \<open>Facts about the table operations\<close>

lemma find_stronger:
  "find P xs = Some x \<Longrightarrow> Q x \<Longrightarrow> find (\<lambda>m. Q m \<and> P m) xs = Some x"
  by (induction xs) (auto split: if_splits)

lemma find_in_set: "find P xs = Some x \<Longrightarrow> x \<in> set xs \<and> P x"
  by (induction xs) (auto split: if_splits)

lemma distinct_pk_eq:
  "distinct (map pk rows) \<Longrightarrow> a \<in> set rows \<Longrightarrow> b \<in> set rows \<Longrightarrow> pk a = pk b \<Longrightarrow> a = b"
  using distinct_map [of pk rows] by (simp add: inj_on_def)

lemma update_score_pk:
  "map pk (snd (update_score_in_db g rows p opp ps os sw)) = map pk rows"
  by (simp add: update_score_in_db_def split: option.splits)

lemma update_score_flags:
  "map switched_flag (snd (update_score_in_db g rows p opp ps os sw)) = map switched_flag rows"
  by (simp add: update_score_in_db_def split: option.splits)

lemma update_score_nth_11:
  assumes d: "distinct (map pk rows)" and i: "i < length rows"
    and h: "left_score (rows ! i) = Some 11 \<or> right_score (rows ! i) = Some 11"
  shows "snd (update_score_in_db g rows p opp ps os sw) ! i = rows ! i"
proof (cases "find (\<lambda>m. player_name m = p \<and> opponent_name m = opp \<and> group_id m = g) rows")
  case None
  then show ?thesis by (simp add: update_score_in_db_def)
next
  case (Some row)
  show ?thesis
  proof (cases "left_score row = Some 11 \<or> right_score row = Some 11")
    case True
    then show ?thesis using Some by (simp add: update_score_in_db_def)
  next
    case False
    have rin: "row \<in> set rows" using find_in_set [OF Some] by simp
    have ri: "rows ! i \<in> set rows" using i by simp
    have "pk (rows ! i) \<noteq> pk row"
    proof
      assume eq: "pk (rows ! i) = pk row"
      have "rows ! i = row" by (rule distinct_pk_eq [OF d ri rin eq])
      with False h show False by simp
    qed
    then show ?thesis using Some False i by (simp add: update_score_in_db_def)
  qed
qed

lemma fetch_into_cache_db: "db (fetch_into_cache net mid st) = db st"
  by (simp add: fetch_into_cache_def fetch_page_def)

lemma score_step_db:
  "db (score_step g net ex pl e st) = db st \<or>
   (\<exists>p opp ps os sw. db (score_step g net ex pl e st) =
      snd (update_score_in_db g (db st) p opp ps os sw))"
proof -
  obtain mid p opp sw where e: "e = (mid, p, opp, sw)" by (cases e) auto
  define st1 where "st1 = (if not_html (cache_get (html_cache st) mid)
                     then fetch_into_cache net mid st else st)"
  have db1: "db st1 = db st" by (simp add: st1_def fetch_into_cache_db)
  show ?thesis
    unfolding score_step_def e prod.case Let_def st1_def [symmetric]
    using db1 by (simp split: option.splits prod.splits) blast
qed

lemma score_step_pk: "map pk (db (score_step g net ex pl e st)) = map pk (db st)"
  using score_step_db [of g net ex pl e st] update_score_pk by auto

lemma score_step_flags:
  "map switched_flag (db (score_step g net ex pl e st)) = map switched_flag (db st)"
  using score_step_db [of g net ex pl e st] update_score_flags by auto

lemma score_step_nth_11:
  assumes "distinct (map pk (db st))" "i < length (db st)"
    "left_score (db st ! i) = Some 11 \<or> right_score (db st ! i) = Some 11"
  shows "db (score_step g net ex pl e st) ! i = db st ! i"
  using score_step_db [of g net ex pl e st] update_score_nth_11 [OF assms] by auto

lemma score_loop_nth_11:
  "distinct (map pk (db st)) \<Longrightarrow> i < length (db st) \<Longrightarrow>
   left_score (db st ! i) = Some 11 \<or> right_score (db st ! i) = Some 11 \<Longrightarrow>
   db (score_loop g net ex pl es st) ! i = db st ! i"
proof (induction es arbitrary: st)
  case Nil
  then show ?case by (simp add: score_loop_def)
next
  case (Cons e es)
  let ?st = "score_step g net ex pl e st"
  have pk: "map pk (db ?st) = map pk (db st)" by (rule score_step_pk)
  have len: "length (db ?st) = length (db st)" using pk by (metis length_map)
  have same: "db ?st ! i = db st ! i" using Cons.prems by (rule score_step_nth_11)
  have "db (score_loop g net ex pl es ?st) ! i = db ?st ! i"
    using Cons.prems pk len same by (intro Cons.IH) simp_all
  then show ?case using same by (simp add: score_loop_def)
qed

lemma set_winner_length: "length (set_winner col mid rows) = length rows"
  by (simp add: set_winner_def)

lemma final_step_length: "length (final_step e rows) = length rows"
  by (cases e) (simp add: final_step_def set_winner_length split: option.splits)

lemma set_winner_keeps:
  assumes "i < length rows"
  shows "(left_score (rows ! i) = Some 11 \<longrightarrow> left_score (set_winner col mid rows ! i) = Some 11) \<and>
         (right_score (rows ! i) = Some 11 \<longrightarrow> right_score (set_winner col mid rows ! i) = Some 11) \<and>
         (finished (rows ! i) \<longrightarrow> finished (set_winner col mid rows ! i))"
  using assms by (cases col) (simp_all add: set_winner_def)

lemma final_step_keeps:
  assumes "i < length rows"
  shows "(left_score (rows ! i) = Some 11 \<longrightarrow> left_score (final_step e rows ! i) = Some 11) \<and>
         (right_score (rows ! i) = Some 11 \<longrightarrow> right_score (final_step e rows ! i) = Some 11) \<and>
         (finished (rows ! i) \<longrightarrow> finished (final_step e rows ! i))"
proof -
  obtain mid w where e: "e = (mid, w)" by (cases e) auto
  show ?thesis
    unfolding e final_step_def prod.case
    using set_winner_keeps [OF assms] by (simp split: option.splits)
qed

lemma final_results_length: "length (final_results fin rows) = length rows"
  by (induction fin arbitrary: rows) (simp_all add: final_results_def final_step_length)

lemma final_results_keeps:
  "i < length rows \<Longrightarrow>
   (left_score (rows ! i) = Some 11 \<longrightarrow> left_score (final_results fin rows ! i) = Some 11) \<and>
   (right_score (rows ! i) = Some 11 \<longrightarrow> right_score (final_results fin rows ! i) = Some 11) \<and>
   (finished (rows ! i) \<longrightarrow> finished (final_results fin rows ! i))"
proof (induction fin arbitrary: rows)
  case Nil
  then show ?case by (simp add: final_results_def)
next
  case (Cons e fin)
  have i': "i < length (final_step e rows)" using Cons.prems by (simp add: final_step_length)
  have step: "final_results (e # fin) rows = final_results fin (final_step e rows)"
    by (simp add: final_results_def)
  show ?case
    unfolding step using final_step_keeps [OF Cons.prems, of e] Cons.IH [OF i'] by blast
qed

section \<open>The write gate of the intermediate scores\<close>

text \<open>
  C6, as the code has it. \<open>update_score_in_db\<close> returns \<open>True\<close>, having executed its
  \<open>UPDATE\<close>, exactly when a row for the two names exists in the group and neither
  stored score of the row found is 11; the mapped scores are not compared with the stored
  ones. When it returns \<open>False\<close> the table is unchanged, and when the mapped scores
  equal the stored ones the write puts the same values back (\<open>id\<close> being a key of the
  table), so the table is unchanged as well.
\<close>

theorem score_write_gate:
  "(fst (update_score_in_db g rows p opp ps os sw) \<longleftrightarrow>
      (\<exists>row. find (\<lambda>m. player_name m = p \<and> opponent_name m = opp \<and> group_id m = g) rows
               = Some row \<and>
             left_score row \<noteq> Some 11 \<and> right_score row \<noteq> Some 11)) \<and>
   (\<not> fst (update_score_in_db g rows p opp ps os sw) \<longrightarrow>
      snd (update_score_in_db g rows p opp ps os sw) = rows) \<and>
   (distinct (map pk rows) \<and>
    (\<exists>row. find (\<lambda>m. player_name m = p \<and> opponent_name m = opp \<and> group_id m = g) rows
             = Some row \<and>
           left_score row = Some ps \<and> right_score row = Some os) \<longrightarrow>
      snd (update_score_in_db g rows p opp ps os sw) = rows)"
proof (intro conjI impI)
  show "fst (update_score_in_db g rows p opp ps os sw) \<longleftrightarrow>
      (\<exists>row. find (\<lambda>m. player_name m = p \<and> opponent_name m = opp \<and> group_id m = g) rows
               = Some row \<and>
             left_score row \<noteq> Some 11 \<and> right_score row \<noteq> Some 11)"
    by (cases "find (\<lambda>m. player_name m = p \<and> opponent_name m = opp \<and> group_id m = g) rows")
      (simp_all add: update_score_in_db_def)
next
  assume "\<not> fst (update_score_in_db g rows p opp ps os sw)"
  then show "snd (update_score_in_db g rows p opp ps os sw) = rows"
    by (cases "find (\<lambda>m. player_name m = p \<and> opponent_name m = opp \<and> group_id m = g) rows")
      (auto simp: update_score_in_db_def split: if_splits)
next
  assume a: "distinct (map pk rows) \<and>
    (\<exists>row. find (\<lambda>m. player_name m = p \<and> opponent_name m = opp \<and> group_id m = g) rows
             = Some row \<and>
           left_score row = Some ps \<and> right_score row = Some os)"
  then obtain row
    where r: "find (\<lambda>m. player_name m = p \<and> opponent_name m = opp \<and> group_id m = g) rows
                = Some row"
      and s: "left_score row = Some ps" "right_score row = Some os"
    by blast
  have d: "distinct (map pk rows)" using a by simp
  have rin: "row \<in> set rows" using find_in_set [OF r] by simp
  have "map (\<lambda>m. if pk m = pk row then m\<lparr>left_score := Some ps, right_score := Some os\<rparr> else m)
          rows = map (\<lambda>m. m) rows"
  proof (rule map_cong [OF refl])
    fix m
    assume m: "m \<in> set rows"
    show "(if pk m = pk row then m\<lparr>left_score := Some ps, right_score := Some os\<rparr> else m) = m"
    proof (cases "pk m = pk row")
      case True
      have "m = row" by (rule distinct_pk_eq [OF d m rin True])
      then show ?thesis using s by simp
    next
      case False
      then show ?thesis by simp
    qed
  qed
  then show "snd (update_score_in_db g rows p opp ps os sw) = rows"
    using r by (simp add: update_score_in_db_def)
qed

theorem score_write_gate_witness:
  "fst (update_score_in_db 1 [alice_bob (Some 3) (Some 4) False False] ''Alice'' ''Bob'' 5 4 False) \<and>
   snd (update_score_in_db 1 [alice_bob (Some 11) (Some 6) False False] ''Alice'' ''Bob'' 9 6 False)
     = [alice_bob (Some 11) (Some 6) False False] \<and>
   snd (update_score_in_db 1 [alice_bob (Some 3) (Some 4) False False] ''Alice'' ''Bob'' 3 4 False)
     = [alice_bob (Some 3) (Some 4) False False]"
  using score_write_gate [of 1 "[alice_bob (Some 3) (Some 4) False False]" "''Alice''" "''Bob''" 5 4 False]
    score_write_gate [of 1 "[alice_bob (Some 11) (Some 6) False False]" "''Alice''" "''Bob''" 9 6 False]
    score_write_gate [of 1 "[alice_bob (Some 3) (Some 4) False False]" "''Alice''" "''Bob''" 3 4 False]
  by (simp add: alice_bob_def)

text \<open>
  The claim as it was stated fails: with the stored scores 3 and 4 and the mapped scores
  3 and 4 the write is executed all the same.
\<close>

theorem score_write_without_difference:
  "fst (update_score_in_db 1 [alice_bob (Some 3) (Some 4) False False] ''Alice'' ''Bob'' 3 4 False) \<and>
   left_score (alice_bob (Some 3) (Some 4) False False) = Some 3 \<and>
   right_score (alice_bob (Some 3) (Some 4) False False) = Some 4"
  by (simp add: update_score_in_db_def alice_bob_def)

section \<open>Non-regression\<close>

text \<open>
  C2, as the code has it. Take a row with a stored score of 11. The score loop of a run
  leaves the whole row as it is (\<open>id\<close> being a key of the table). The final results of a
  run never change a score that is 11 and never take the finished flag back; they can
  still set the flag of such a row.
\<close>

theorem non_regression:
  "i < length (db st) \<and>
   (left_score (db st ! i) = Some 11 \<or> right_score (db st ! i) = Some 11) \<longrightarrow>
     (distinct (map pk (db st)) \<longrightarrow>
        snd (update_score_in_db g (db st) p opp ps os sw) ! i = db st ! i \<and>
        db (score_loop g net extract players es st) ! i = db st ! i) \<and>
     (left_score (db st ! i) = Some 11 \<longrightarrow>
        left_score (final_results fin (db st) ! i) = Some 11) \<and>
     (right_score (db st ! i) = Some 11 \<longrightarrow>
        right_score (final_results fin (db st) ! i) = Some 11) \<and>
     (finished (db st ! i) \<longrightarrow> finished (final_results fin (db st) ! i))"
proof (intro impI, elim conjE)
  assume i: "i < length (db st)"
    and h: "left_score (db st ! i) = Some 11 \<or> right_score (db st ! i) = Some 11"
  have a: "distinct (map pk (db st)) \<longrightarrow>
        snd (update_score_in_db g (db st) p opp ps os sw) ! i = db st ! i \<and>
        db (score_loop g net extract players es st) ! i = db st ! i"
    using update_score_nth_11 [OF _ i h] score_loop_nth_11 [OF _ i h] by blast
  show "(distinct (map pk (db st)) \<longrightarrow>
        snd (update_score_in_db g (db st) p opp ps os sw) ! i = db st ! i \<and>
        db (score_loop g net extract players es st) ! i = db st ! i) \<and>
     (left_score (db st ! i) = Some 11 \<longrightarrow>
        left_score (final_results fin (db st) ! i) = Some 11) \<and>
     (right_score (db st ! i) = Some 11 \<longrightarrow>
        right_score (final_results fin (db st) ! i) = Some 11) \<and>
     (finished (db st ! i) \<longrightarrow> finished (final_results fin (db st) ! i))"
    using a final_results_keeps [OF i, of fin] by blast
qed

theorem non_regression_witness:
  "db (score_loop 1 (\<lambda>n mid. Response True ''<html>'')
         (\<lambda>html names. Some (''Alice'', ''Bob'', 9, 6)) [''Alice'', ''Bob'']
         [(12345, ''Alice'', ''Bob'', False)]
         \<lparr>db = [alice_bob (Some 11) (Some 6) False True], html_cache = Map.empty,
          requests = []\<rparr>) ! 0
     = alice_bob (Some 11) (Some 6) False True \<and>
   left_score (final_results [(12345, ''Bob'')] [alice_bob (Some 11) (Some 6) False True] ! 0)
     = Some 11 \<and>
   finished (final_results [(12345, ''Bob'')] [alice_bob (Some 11) (Some 6) False True] ! 0)"
  using non_regression [of 0
      "\<lparr>db = [alice_bob (Some 11) (Some 6) False True], html_cache = Map.empty, requests = []\<rparr>"
      1 "''Alice''" "''Bob''" 9 6 False "\<lambda>n mid. Response True ''<html>''"
      "\<lambda>html names. Some (''Alice'', ''Bob'', 9, 6)" "[''Alice'', ''Bob'']"
      "[(12345, ''Alice'', ''Bob'', False)]" "[(12345, ''Bob'')]"]
  by (simp add: alice_bob_def)

text \<open>
  The claim as it was stated fails: a row with the scores 11 and 6 that is not yet marked
  finished is marked finished by the final results of a later run.
\<close>

theorem finished_changes_after_11:
  "left_score (alice_bob (Some 11) (Some 6) False False) = Some 11 \<and>
   \<not> finished (alice_bob (Some 11) (Some 6) False False) \<and>
   finished (final_results [(12345, ''Alice'')] [alice_bob (Some 11) (Some 6) False False] ! 0)"
  by (simp add: alice_bob_def final_results_def final_step_def set_winner_def)

section \<open>Storing an observation\<close>

lemma score_step_stores:
  assumes f: "find (\<lambda>m. player_name m = p \<and> opponent_name m = opp \<and> group_id m = g) (db st)
                = Some row"
    and m: "match_id row = Some mid"
    and n: "left_score row \<noteq> Some 11" "right_score row \<noteq> Some 11"
    and c: "cache_get (html_cache st) mid = Some html" "html \<noteq> []"
    and x: "ex html players = Some (lname, rname, l, r)"
  shows "db (score_step g net ex players (mid, p, opp, sw) st) =
      (case map_scores p opp lname rname l r sw of
         None \<Rightarrow> db st
       | Some (a, b) \<Rightarrow>
           map (\<lambda>m. if pk m = pk row then m\<lparr>left_score := Some a, right_score := Some b\<rparr> else m)
             (db st))"
proof -
  have f': "find (\<lambda>m. match_id m = Some mid \<and> player_name m = p \<and> opponent_name m = opp \<and>
                     group_id m = g) (db st) = Some row"
    using find_stronger [OF f, of "\<lambda>m. match_id m = Some mid"] m by simp
  have nh: "\<not> not_html (Some html)" using c(2) by (simp add: not_html_def)
  have step: "db (score_step g net ex players (mid, p, opp, sw) st) =
      (case map_scores p opp lname rname l r sw of
         None \<Rightarrow> db st
       | Some (a, b) \<Rightarrow> snd (update_score_in_db g (db st) p opp a b sw))"
    using n c x nh by (simp add: score_step_def f' split: option.splits)
  have upd: "snd (update_score_in_db g (db st) p opp a b sw) =
      map (\<lambda>m. if pk m = pk row then m\<lparr>left_score := Some a, right_score := Some b\<rparr> else m)
        (db st)" for a b
    using n by (simp add: update_score_in_db_def f)
  show ?thesis by (simp only: step upd)
qed

lemma evaluate_match_read:
  assumes "mid \<notin> set finished_ids" "cache_get cache mid = Some html" "html \<noteq> []"
    "ex html [p, opp] = Some (lname, rname, s, t)"
  shows "evaluate_match ex cache finished_ids (mid, p, opp, sw) =
         (mid, p, opp,
          \<not> (lower lname = lower p \<and> lower rname = lower opp) \<and>
          lower lname = lower opp \<and> lower rname = lower p)"
  using assms by (simp add: evaluate_match_def Let_def)


lemma map_scores_record_order:
  assumes "lower (strip lname) = lower (strip p) \<and> lower (strip rname) = lower (strip opp)"
  shows "map_scores p opp lname rname l r False = Some (l, r)"
  by (simp only: map_scores_cases if_False if_P [OF assms])

lemma map_scores_flag: "map_scores p opp lname rname l r True = Some (r, l)"
  by (simp only: map_scores_cases if_True)

text \<open>
  C3, as the code has it. The mapping direction of a write is that of the flag of the
  record's entry in \<open>match_id_to_db\<close>, which Step 1 of the run has taken from the names on
  the page, and not that of the flag stored on the record. Take an entry whose row is in
  the table with no score of 11, and a page in the cache from which the score loop reads an
  observation with the left score \<open>l\<close> and the right score \<open>r\<close>. With the entry's flag
  true, the score loop stores \<open>r\<close> as the player's score (\<open>left_score\<close>) and \<open>l\<close>
  as the opponent's score (\<open>right_score\<close>); with the entry's flag false and the observed
  names equal to the player's and the opponent's in record order, it stores \<open>l\<close> and
  \<open>r\<close>. When Step 1 reads the names in reversed order, the entry's flag is true and the
  swapped pair is stored, whatever flag the record had; when Step 1 and the score loop read
  the names in record order, the entry's flag is false and the direct pair is stored,
  whatever flag the record had.
\<close>

theorem switched_score_mapping:
  "find (\<lambda>m. player_name m = p \<and> opponent_name m = opp \<and> group_id m = g) (db st) = Some row \<and>
   match_id row = Some mid \<and> left_score row \<noteq> Some 11 \<and> right_score row \<noteq> Some 11 \<and>
   cache_get (html_cache st) mid = Some html \<and> html \<noteq> [] \<and>
   ex html players = Some (lname, rname, l, r) \<longrightarrow>
     map_scores p opp lname rname l r True = Some (r, l) \<and>
     db (score_step g net ex players (mid, p, opp, True) st) =
       map (\<lambda>m. if pk m = pk row then m\<lparr>left_score := Some r, right_score := Some l\<rparr> else m)
         (db st) \<and>
     (lower (strip lname) = lower (strip p) \<and> lower (strip rname) = lower (strip opp) \<longrightarrow>
        map_scores p opp lname rname l r False = Some (l, r) \<and>
        db (score_step g net ex players (mid, p, opp, False) st) =
          map (\<lambda>m. if pk m = pk row then m\<lparr>left_score := Some l, right_score := Some r\<rparr> else m)
            (db st)) \<and>
     (ex html [p, opp] = Some (lname1, rname1, s1, t1) \<and>
      lower lname1 = lower opp \<and> lower rname1 = lower p \<and>
      \<not> (lower lname1 = lower p \<and> lower rname1 = lower opp) \<longrightarrow>
        db (score_step g net ex players
              (evaluate_match ex (html_cache st) [] (mid, p, opp, switched_flag row)) st) =
          map (\<lambda>m. if pk m = pk row then m\<lparr>left_score := Some r, right_score := Some l\<rparr> else m)
            (db st)) \<and>
     (ex html [p, opp] = Some (lname1, rname1, s1, t1) \<and>
      lower lname1 = lower p \<and> lower rname1 = lower opp \<and>
      lower (strip lname) = lower (strip p) \<and> lower (strip rname) = lower (strip opp) \<longrightarrow>
        db (score_step g net ex players
              (evaluate_match ex (html_cache st) [] (mid, p, opp, switched_flag row)) st) =
          map (\<lambda>m. if pk m = pk row then m\<lparr>left_score := Some l, right_score := Some r\<rparr> else m)
            (db st))"
proof (intro impI, elim conjE)
  assume f: "find (\<lambda>m. player_name m = p \<and> opponent_name m = opp \<and> group_id m = g) (db st)
               = Some row"
    and m: "match_id row = Some mid"
    and n: "left_score row \<noteq> Some 11" "right_score row \<noteq> Some 11"
    and c: "cache_get (html_cache st) mid = Some html" "html \<noteq> []"
    and x: "ex html players = Some (lname, rname, l, r)"
  note stores = score_step_stores [where ex = ex and players = players, OF f m n c x]
  have swapped: "db (score_step g net ex players (mid, p, opp, True) st) =
       map (\<lambda>m. if pk m = pk row then m\<lparr>left_score := Some r, right_score := Some l\<rparr> else m)
         (db st)"
    by (simp only: stores map_scores_flag option.case prod.case)
  have direct: "db (score_step g net ex players (mid, p, opp, False) st) =
          map (\<lambda>m. if pk m = pk row then m\<lparr>left_score := Some l, right_score := Some r\<rparr> else m)
            (db st)"
    if "lower (strip lname) = lower (strip p) \<and> lower (strip rname) = lower (strip opp)"
    by (simp only: stores map_scores_record_order [OF that] option.case prod.case)
  show "map_scores p opp lname rname l r True = Some (r, l) \<and>
     db (score_step g net ex players (mid, p, opp, True) st) =
       map (\<lambda>m. if pk m = pk row then m\<lparr>left_score := Some r, right_score := Some l\<rparr> else m)
         (db st) \<and>
     (lower (strip lname) = lower (strip p) \<and> lower (strip rname) = lower (strip opp) \<longrightarrow>
        map_scores p opp lname rname l r False = Some (l, r) \<and>
        db (score_step g net ex players (mid, p, opp, False) st) =
          map (\<lambda>m. if pk m = pk row then m\<lparr>left_score := Some l, right_score := Some r\<rparr> else m)
            (db st)) \<and>
     (ex html [p, opp] = Some (lname1, rname1, s1, t1) \<and>
      lower lname1 = lower opp \<and> lower rname1 = lower p \<and>
      \<not> (lower lname1 = lower p \<and> lower rname1 = lower opp) \<longrightarrow>
        db (score_step g net ex players
              (evaluate_match ex (html_cache st) [] (mid, p, opp, switched_flag row)) st) =
          map (\<lambda>m. if pk m = pk row then m\<lparr>left_score := Some r, right_score := Some l\<rparr> else m)
            (db st)) \<and>
     (ex html [p, opp] = Some (lname1, rname1, s1, t1) \<and>
      lower lname1 = lower p \<and> lower rname1 = lower opp \<and>
      lower (strip lname) = lower (strip p) \<and> lower (strip rname) = lower (strip opp) \<longrightarrow>
        db (score_step g net ex players
              (evaluate_match ex (html_cache st) [] (mid, p, opp, switched_flag row)) st) =
          map (\<lambda>m. if pk m = pk row then m\<lparr>left_score := Some l, right_score := Some r\<rparr> else m)
            (db st))"
  proof (intro conjI impI)
    show "map_scores p opp lname rname l r True = Some (r, l)" by (rule map_scores_flag)
    show "db (score_step g net ex players (mid, p, opp, True) st) =
       map (\<lambda>m. if pk m = pk row then m\<lparr>left_score := Some r, right_score := Some l\<rparr> else m)
         (db st)"
      by (rule swapped)
  next
    assume h: "lower (strip lname) = lower (strip p) \<and> lower (strip rname) = lower (strip opp)"
    show "map_scores p opp lname rname l r False = Some (l, r)"
      by (rule map_scores_record_order [OF h])
    show "db (score_step g net ex players (mid, p, opp, False) st) =
          map (\<lambda>m. if pk m = pk row then m\<lparr>left_score := Some l, right_score := Some r\<rparr> else m)
            (db st)"
      by (rule direct [OF h])
  next
    assume h: "ex html [p, opp] = Some (lname1, rname1, s1, t1) \<and>
      lower lname1 = lower opp \<and> lower rname1 = lower p \<and>
      \<not> (lower lname1 = lower p \<and> lower rname1 = lower opp)"
    have x1: "ex html [p, opp] = Some (lname1, rname1, s1, t1)" using h by (rule conjunct1)
    have flag: "(\<not> (lower lname1 = lower p \<and> lower rname1 = lower opp) \<and>
          lower lname1 = lower opp \<and> lower rname1 = lower p) = True"
      using h by blast
    have "evaluate_match ex (html_cache st) [] (mid, p, opp, switched_flag row)
            = (mid, p, opp, True)"
      using evaluate_match_read [where ex = ex and finished_ids = "[]" and sw = "switched_flag row",
          OF _ c x1]
      by (simp only: flag list.set empty_iff not_False_eq_True)
    then show "db (score_step g net ex players
              (evaluate_match ex (html_cache st) [] (mid, p, opp, switched_flag row)) st) =
          map (\<lambda>m. if pk m = pk row then m\<lparr>left_score := Some r, right_score := Some l\<rparr> else m)
            (db st)"
      by (simp only: swapped)
  next
    assume h: "ex html [p, opp] = Some (lname1, rname1, s1, t1) \<and>
      lower lname1 = lower p \<and> lower rname1 = lower opp \<and>
      lower (strip lname) = lower (strip p) \<and> lower (strip rname) = lower (strip opp)"
    have x1: "ex html [p, opp] = Some (lname1, rname1, s1, t1)" using h by (rule conjunct1)
    have ro: "lower (strip lname) = lower (strip p) \<and> lower (strip rname) = lower (strip opp)"
      using h by blast
    have flag: "(\<not> (lower lname1 = lower p \<and> lower rname1 = lower opp) \<and>
          lower lname1 = lower opp \<and> lower rname1 = lower p) = False"
      using h by blast
    have "evaluate_match ex (html_cache st) [] (mid, p, opp, switched_flag row)
            = (mid, p, opp, False)"
      using evaluate_match_read [where ex = ex and finished_ids = "[]" and sw = "switched_flag row",
          OF _ c x1]
      by (simp only: flag list.set empty_iff not_False_eq_True)
    then show "db (score_step g net ex players
              (evaluate_match ex (html_cache st) [] (mid, p, opp, switched_flag row)) st) =
          map (\<lambda>m. if pk m = pk row then m\<lparr>left_score := Some l, right_score := Some r\<rparr> else m)
            (db st)"
      by (simp only: direct [OF ro])
  qed
qed

theorem switched_score_mapping_witness:
  "db (score_step 1 (\<lambda>n mid. RequestException) (\<lambda>html names. Some (''Bob'', ''Alice'', 7, 4))
         [''Alice'', ''Bob''] (12345, ''Alice'', ''Bob'', True)
         \<lparr>db = [alice_bob (Some 3) (Some 5) False False],
          html_cache = [12345 \<mapsto> Some ''<html>''], requests = []\<rparr>)
     = [alice_bob (Some 4) (Some 7) False False] \<and>
   db (score_step 1 (\<lambda>n mid. RequestException) (\<lambda>html names. Some (''Bob'', ''Alice'', 7, 4))
         [''Alice'', ''Bob'']
         (evaluate_match (\<lambda>html names. Some (''Bob'', ''Alice'', 7, 4))
            [12345 \<mapsto> Some ''<html>''] [] (12345, ''Alice'', ''Bob'', False))
         \<lparr>db = [alice_bob (Some 3) (Some 5) False False],
          html_cache = [12345 \<mapsto> Some ''<html>''], requests = []\<rparr>)
     = [alice_bob (Some 4) (Some 7) False False] \<and>
   db (score_step 1 (\<lambda>n mid. RequestException) (\<lambda>html names. Some (''Alice'', ''Bob'', 7, 4))
         [''Alice'', ''Bob''] (12345, ''Alice'', ''Bob'', False)
         \<lparr>db = [alice_bob (Some 3) (Some 4) True False],
          html_cache = [12345 \<mapsto> Some ''<html>''], requests = []\<rparr>)
     = [alice_bob (Some 7) (Some 4) True False] \<and>
   db (score_step 1 (\<lambda>n mid. RequestException) (\<lambda>html names. Some (''Alice'', ''Bob'', 7, 4))
         [''Alice'', ''Bob'']
         (evaluate_match (\<lambda>html names. Some (''Alice'', ''Bob'', 7, 4))
            [12345 \<mapsto> Some ''<html>''] [] (12345, ''Alice'', ''Bob'', True))
         \<lparr>db = [alice_bob (Some 3) (Some 4) True False],
          html_cache = [12345 \<mapsto> Some ''<html>''], requests = []\<rparr>)
     = [alice_bob (Some 7) (Some 4) True False]"
  using switched_score_mapping [where p = "''Alice''" and opp = "''Bob''" and g = 1
      and st = "\<lparr>db = [alice_bob (Some 3) (Some 5) False False],
               html_cache = [12345 \<mapsto> Some ''<html>''], requests = []\<rparr>"
      and row = "alice_bob (Some 3) (Some 5) False False" and mid = 12345
      and html = "''<html>''" and ex = "\<lambda>html names. Some (''Bob'', ''Alice'', 7, 4)"
      and players = "[''Alice'', ''Bob'']" and lname = "''Bob''" and rname = "''Alice''"
      and l = 7 and r = 4 and net = "\<lambda>n mid. RequestException"
      and ?lname1.0 = "''Bob''" and ?rname1.0 = "''Alice''" and ?s1.0 = 7 and ?t1.0 = 4]
    switched_score_mapping [where p = "''Alice''" and opp = "''Bob''" and g = 1
      and st = "\<lparr>db = [alice_bob (Some 3) (Some 4) True False],
               html_cache = [12345 \<mapsto> Some ''<html>''], requests = []\<rparr>"
      and row = "alice_bob (Some 3) (Some 4) True False" and mid = 12345
      and html = "''<html>''" and ex = "\<lambda>html names. Some (''Alice'', ''Bob'', 7, 4)"
      and players = "[''Alice'', ''Bob'']" and lname = "''Alice''" and rname = "''Bob''"
      and l = 7 and r = 4 and net = "\<lambda>n mid. RequestException"
      and ?lname1.0 = "''Alice''" and ?rname1.0 = "''Bob''" and ?s1.0 = 7 and ?t1.0 = 4]
  by (simp add: alice_bob_def cache_get_def lower_def lower_char_def strip_def isspace_def)

text \<open>
  The claim as it was stated fails: the record has the switched flag set and true, its
  entry of \<open>match_id_to_db\<close> is built with that flag, and the page of the run shows Alice
  on the left and Bob on the right with 8 and 5. The run stores 8 as the player's score
  and 5 as the opponent's, the direct pair.
\<close>

theorem switched_record_stores_direct_pair:
  "switched_flag (alice_bob (Some 3) (Some 2) True False) \<and>
   build_match_id_to_db 1 [alice_bob (Some 3) (Some 2) True False]
     = [(12345, ''Alice'', ''Bob'', True)] \<and>
   db (run_cycle 1 (\<lambda>n mid. Response True ''<html>'') (\<lambda>mid. RequestException)
         (\<lambda>html names. Some (''Alice'', ''Bob'', 8, 5)) [''Alice'', ''Bob'']
         [alice_bob (Some 3) (Some 2) True False])
     = [alice_bob (Some 8) (Some 5) True False]"
  by code_simp

section \<open>map_scores: the switched flag comes first\<close>




section \<open>The final results: which column gets the 11\<close>

text \<open>
  C1, as the code has it. The row found for the match id decides the column from the winner
  name and from the row's switched flag: the winner name being the player's, the player's
  score (\<open>left_score\<close>) is set to 11 when the row is not switched, and the opponent's score
  (\<open>right_score\<close>) when it is switched; the winner name being the opponent's, it is the
  other way round. Every row with that match id gets the 11 in this column and
  \<open>finished = TRUE\<close> in the same write, its other score is kept. With a winner name that
  is neither name, or with no row for the match id, the table is unchanged.
  \<open>update_match_score_in_db\<close> without a group does the same.
\<close>

theorem final_result_column:
  "(find (\<lambda>m. match_id m = Some mid) rows = Some row \<and> i < length rows \<and>
    match_id (rows ! i) = Some mid \<longrightarrow>
      final_step (mid, w) rows ! i =
        (if w = player_name row
         then (if \<not> switched_flag row
               then (rows ! i)\<lparr>left_score := Some 11, finished := True\<rparr>
               else (rows ! i)\<lparr>right_score := Some 11, finished := True\<rparr>)
         else if w = opponent_name row
         then (if \<not> switched_flag row
               then (rows ! i)\<lparr>right_score := Some 11, finished := True\<rparr>
               else (rows ! i)\<lparr>left_score := Some 11, finished := True\<rparr>)
         else rows ! i)) \<and>
   (find (\<lambda>m. match_id m = Some mid) rows = Some row \<and>
    w \<noteq> player_name row \<and> w \<noteq> opponent_name row \<longrightarrow> final_step (mid, w) rows = rows) \<and>
   (find (\<lambda>m. match_id m = Some mid) rows = None \<longrightarrow> final_step (mid, w) rows = rows) \<and>
   (i < length rows \<and> match_id (rows ! i) \<noteq> Some mid \<longrightarrow> final_step (mid, w) rows ! i = rows ! i) \<and>
   update_match_score_in_db mid w None rows = final_step (mid, w) rows"
proof (intro conjI impI)
  assume a: "find (\<lambda>m. match_id m = Some mid) rows = Some row \<and> i < length rows \<and>
    match_id (rows ! i) = Some mid"
  then show "final_step (mid, w) rows ! i =
        (if w = player_name row
         then (if \<not> switched_flag row
               then (rows ! i)\<lparr>left_score := Some 11, finished := True\<rparr>
               else (rows ! i)\<lparr>right_score := Some 11, finished := True\<rparr>)
         else if w = opponent_name row
         then (if \<not> switched_flag row
               then (rows ! i)\<lparr>right_score := Some 11, finished := True\<rparr>
               else (rows ! i)\<lparr>left_score := Some 11, finished := True\<rparr>)
         else rows ! i)"
    by (simp add: final_step_def set_winner_def)
next
  assume "find (\<lambda>m. match_id m = Some mid) rows = Some row \<and>
    w \<noteq> player_name row \<and> w \<noteq> opponent_name row"
  then show "final_step (mid, w) rows = rows" by (simp add: final_step_def)
next
  assume "find (\<lambda>m. match_id m = Some mid) rows = None"
  then show "final_step (mid, w) rows = rows" by (simp add: final_step_def)
next
  assume "i < length rows \<and> match_id (rows ! i) \<noteq> Some mid"
  then show "final_step (mid, w) rows ! i = rows ! i"
    by (cases "find (\<lambda>m. match_id m = Some mid) rows")
      (simp_all add: final_step_def set_winner_def)
next
  show "update_match_score_in_db mid w None rows = final_step (mid, w) rows"
    by (simp add: update_match_score_in_db_def final_step_def)
qed

theorem final_result_column_witness:
  "final_step (12345, ''Alice'') [alice_bob (Some 9) (Some 6) False False] ! 0
     = alice_bob (Some 11) (Some 6) False True \<and>
   final_step (12345, ''Bob'') [alice_bob (Some 9) (Some 6) True False] ! 0
     = alice_bob (Some 11) (Some 6) True True \<and>
   final_step (12345, ''Carol'') [alice_bob (Some 9) (Some 6) False False]
     = [alice_bob (Some 9) (Some 6) False False] \<and>
   final_step (777, ''Alice'') [alice_bob (Some 9) (Some 6) False False]
     = [alice_bob (Some 9) (Some 6) False False]"
  using final_result_column [of 12345 "[alice_bob (Some 9) (Some 6) False False]"
      "alice_bob (Some 9) (Some 6) False False" 0 "''Alice''"]
    final_result_column [of 12345 "[alice_bob (Some 9) (Some 6) True False]"
      "alice_bob (Some 9) (Some 6) True False" 0 "''Bob''"]
    final_result_column [of 12345 "[alice_bob (Some 9) (Some 6) False False]"
      "alice_bob (Some 9) (Some 6) False False" 0 "''Carol''"]
    final_result_column [of 777 "[alice_bob (Some 9) (Some 6) False False]"
      "alice_bob (Some 9) (Some 6) False False" 0 "''Alice''"]
  by (simp add: alice_bob_def)

text \<open>
  The claim as it was stated fails on a switched row: with the winner name of the player
  (side A), it is the opponent's score (side B's column) that becomes 11.
\<close>

theorem winner_column_of_switched_row:
  "final_step (12345, ''Alice'') [alice_bob (Some 9) (Some 6) True False]
     = [alice_bob (Some 9) (Some 11) True True]"
  by (simp add: alice_bob_def final_step_def set_winner_def)

section \<open>The orientation is resolved again in every run\<close>

lemma score_loop_flags:
  "map switched_flag (db (score_loop g net ex pl es st)) = map switched_flag (db st)"
  by (induction es arbitrary: st) (simp_all add: score_loop_def score_step_flags)

lemma final_step_flags: "map switched_flag (final_step e rows) = map switched_flag rows"
proof -
  obtain mid w where e: "e = (mid, w)" by (cases e) auto
  have "map switched_flag (set_winner col mid rows) = map switched_flag rows" for col
    by (cases col) (simp_all add: set_winner_def)
  then show ?thesis
    unfolding e final_step_def prod.case by (simp split: option.splits)
qed

lemma final_results_flags: "map switched_flag (final_results fin rows) = map switched_flag rows"
  by (induction fin arbitrary: rows) (simp_all add: final_results_def final_step_flags)

text \<open>
  C4, as the code has it. In every run the second loop of Step 1 sets the flag of an entry
  of \<open>match_id_to_db\<close> from the names observed on the page, whenever it reads a score row
  there: true exactly when the observed names are the opponent's and the player's in
  reversed order and not also in record order, whatever the stored flag was. The stored
  flag is kept for the run only when the loop reads no score row (the id is in
  \<open>finished_by_id\<close>, no page in the cache, no score row on the page). The flag so set
  is the one the score loop of the run maps with; neither the score loop nor the final
  results write the stored flag.
\<close>

theorem orientation_resolved_each_run:
  "(mid \<notin> set finished_ids \<and> cache_get cache mid = Some html \<and> html \<noteq> [] \<and>
    extract html [p, opp] = Some (lname, rname, s, t) \<longrightarrow>
      evaluate_match extract cache finished_ids (mid, p, opp, sw) =
        (mid, p, opp,
         \<not> (lower lname = lower p \<and> lower rname = lower opp) \<and>
         lower lname = lower opp \<and> lower rname = lower p)) \<and>
   (mid \<in> set finished_ids \<or> not_html (cache_get cache mid) \<or>
    (\<exists>html. cache_get cache mid = Some html \<and> extract html [p, opp] = None) \<longrightarrow>
      evaluate_match extract cache finished_ids (mid, p, opp, sw) = (mid, p, opp, sw)) \<and>
   map switched_flag (db (score_loop g net extract players es st)) = map switched_flag (db st) \<and>
   map switched_flag (final_results fin rows) = map switched_flag rows"
proof (intro conjI impI)
  assume "mid \<notin> set finished_ids \<and> cache_get cache mid = Some html \<and> html \<noteq> [] \<and>
    extract html [p, opp] = Some (lname, rname, s, t)"
  then show "evaluate_match extract cache finished_ids (mid, p, opp, sw) =
        (mid, p, opp,
         \<not> (lower lname = lower p \<and> lower rname = lower opp) \<and>
         lower lname = lower opp \<and> lower rname = lower p)"
    by (simp add: evaluate_match_def Let_def)
next
  assume "mid \<in> set finished_ids \<or> not_html (cache_get cache mid) \<or>
    (\<exists>html. cache_get cache mid = Some html \<and> extract html [p, opp] = None)"
  then show "evaluate_match extract cache finished_ids (mid, p, opp, sw) = (mid, p, opp, sw)"
    by (auto simp: evaluate_match_def not_html_def split: option.splits)
next
  show "map switched_flag (db (score_loop g net extract players es st)) = map switched_flag (db st)"
    by (rule score_loop_flags)
next
  show "map switched_flag (final_results fin rows) = map switched_flag rows"
    by (rule final_results_flags)
qed

theorem orientation_resolved_each_run_witness:
  "evaluate_match (\<lambda>html names. Some (''Bob'', ''Alice'', 7, 4)) [12345 \<mapsto> Some ''<html>''] []
     (12345, ''Alice'', ''Bob'', False) = (12345, ''Alice'', ''Bob'', True) \<and>
   evaluate_match (\<lambda>html names. Some (''Bob'', ''Alice'', 7, 4)) [12345 \<mapsto> None] []
     (12345, ''Alice'', ''Bob'', True) = (12345, ''Alice'', ''Bob'', True)"
  using orientation_resolved_each_run [of 12345 "[]" "[12345 \<mapsto> Some ''<html>'']" "''<html>''"
      "\<lambda>html names. Some (''Bob'', ''Alice'', 7, 4)" "''Alice''" "''Bob''" "''Bob''" "''Alice''"
      7 4 False]
    orientation_resolved_each_run [of 12345 "[]" "[12345 \<mapsto> None]" "''<html>''"
      "\<lambda>html names. Some (''Bob'', ''Alice'', 7, 4)" "''Alice''" "''Bob''" "''Bob''" "''Alice''"
      7 4 True]
  by (simp add: cache_get_def not_html_def lower_def lower_char_def)

text \<open>
  The claim as it was stated fails: the row has the stored flag true, the page of this run
  shows Alice on the left and Bob on the right with 7 and 4; Step 1 sets the entry's flag
  to false and the run stores 7 and 4, not the swapped pair of the stored flag.
\<close>

theorem stored_flag_not_used:
  "evaluate_match (\<lambda>html names. Some (''Alice'', ''Bob'', 7, 4)) [12345 \<mapsto> Some ''<html>''] []
     (12345, ''Alice'', ''Bob'', True) = (12345, ''Alice'', ''Bob'', False) \<and>
   db (run_cycle 1 (\<lambda>n mid. Response True ''<html>'') (\<lambda>mid. RequestException)
         (\<lambda>html names. Some (''Alice'', ''Bob'', 7, 4)) [''Alice'', ''Bob'']
         [alice_bob (Some 3) (Some 2) True False])
     = [alice_bob (Some 7) (Some 4) True False]"
  by code_simp

section \<open>Discovery of missing match ids: the first acceptable candidate\<close>

lemma candidate_skip:
  "\<not> acceptable pn opn ex c \<Longrightarrow>
   candidate_loop dc fails k pn opn (c # rest) rows ex = candidate_loop dc fails k pn opn rest rows ex"
  by (cases c) (auto simp: acceptable_def split: option.splits)

lemma candidate_failed_write:
  "int_of_str (snd c) = Some m \<Longrightarrow> fails m \<Longrightarrow>
   candidate_loop True fails k pn opn (c # rest) rows ex =
     candidate_loop True fails k pn opn rest rows ex"
  by (cases c) (auto simp: save_candidate_def)

lemma candidate_take:
  "acceptable pn opn ex (name, ids) \<Longrightarrow> int_of_str ids = Some mid \<Longrightarrow> dc \<longrightarrow> \<not> fails mid \<Longrightarrow>
   candidate_loop dc fails k pn opn ((name, ids) # rest) rows ex =
     (if dc then (True, attach k mid (lower (strip name) \<noteq> lower (strip opn)) rows, insert mid ex)
      else (True, rows, ex))"
  by (auto simp: acceptable_def save_candidate_def)

lemma candidate_none:
  "\<forall>c \<in> set cands. \<not> acceptable pn opn ex c \<Longrightarrow>
   candidate_loop dc fails k pn opn cands rows ex = (False, rows, ex)"
  by (induction cands) (simp_all add: candidate_skip)

lemma candidate_prefix:
  "\<forall>c \<in> set pre. \<not> acceptable pn opn ex c \<or> (dc \<and> (\<exists>m. int_of_str (snd c) = Some m \<and> fails m)) \<Longrightarrow>
   candidate_loop dc fails k pn opn (pre @ rest) rows ex =
     candidate_loop dc fails k pn opn rest rows ex"
proof (induction pre)
  case Nil
  then show ?case by simp
next
  case (Cons c pre)
  have "candidate_loop dc fails k pn opn (c # (pre @ rest)) rows ex =
        candidate_loop dc fails k pn opn (pre @ rest) rows ex"
  proof (cases "acceptable pn opn ex c")
    case False
    then show ?thesis by (rule candidate_skip)
  next
    case True
    then obtain m where "dc" "int_of_str (snd c) = Some m" "fails m" using Cons.prems by auto
    then show ?thesis using candidate_failed_write by simp
  qed
  then show ?case using Cons by simp
qed

lemma fill_skip_name:
  "lower (strip (fst c)) \<noteq> lower (strip opn) \<Longrightarrow>
   fill_missing k opn (c # rest) rows ex = fill_missing k opn rest rows ex"
  by (cases c) simp

lemma fill_skip:
  "\<not> (lower (strip (fst c)) = lower (strip opn) \<and>
      (\<exists>m. int_of_str (snd c) = Some m \<and> m \<notin> ex)) \<Longrightarrow>
   fill_missing k opn (c # rest) rows ex = fill_missing k opn rest rows ex"
  by (cases c) (auto split: option.splits)

lemma fill_prefix:
  "\<forall>c \<in> set pre. \<not> (lower (strip (fst c)) = lower (strip opn) \<and>
      (\<exists>m. int_of_str (snd c) = Some m \<and> m \<notin> ex)) \<Longrightarrow>
   fill_missing k opn (pre @ rest) rows ex = fill_missing k opn rest rows ex"
  by (induction pre) (simp_all add: fill_skip)

text \<open>
  C5, as the code has it. In \<open>process_groups\<close> (script \<open>find_match_ids2\<close>), for a row
  without a match id: a candidate is passed over when its id is among the existing ids
  or its name equals neither name of the row (compared after \<open>strip()\<close> and
  \<open>lower()\<close>), and when its write fails. With no candidate left, nothing is written.
  The first candidate that is acceptable and whose write succeeds ends the loop: the
  row gets its id, and the switched flag false when the name equals the opponent's name
  and true otherwise (the name then equals the player's), and the id joins the existing
  ids; a dry run ends at the first acceptable candidate and writes nothing.
  In the dashboard script (\<open>Step 2\<close>) a candidate is taken only when its name equals
  the opponent's name; the first such candidate with a new id ends the loop, and the row
  gets the id alone: its switched flag stays as it was. A candidate with the player's
  name is passed over.
\<close>

theorem discovery_first_acceptable:
  "((\<forall>c \<in> set cands. \<not> acceptable pn opn ex c) \<longrightarrow>
      candidate_loop dc fails k pn opn cands rows ex = (False, rows, ex)) \<and>
   ((\<forall>c \<in> set pre. \<not> acceptable pn opn ex c \<or> (\<exists>m. int_of_str (snd c) = Some m \<and> fails m)) \<and>
    acceptable pn opn ex (name, ids) \<and> int_of_str ids = Some mid \<and> \<not> fails mid \<longrightarrow>
      candidate_loop True fails k pn opn (pre @ (name, ids) # post) rows ex =
        (True, attach k mid (lower (strip name) \<noteq> lower (strip opn)) rows, insert mid ex)) \<and>
   ((\<forall>c \<in> set pre. \<not> acceptable pn opn ex c) \<and> acceptable pn opn ex (name, ids) \<longrightarrow>
      candidate_loop False fails k pn opn (pre @ (name, ids) # post) rows ex = (True, rows, ex)) \<and>
   ((\<forall>c \<in> set pre. \<not> (lower (strip (fst c)) = lower (strip opn) \<and>
                         (\<exists>m. int_of_str (snd c) = Some m \<and> m \<notin> ex))) \<and>
    lower (strip name) = lower (strip opn) \<and> int_of_str ids = Some mid \<and> mid \<notin> ex \<longrightarrow>
      fill_missing k opn (pre @ (name, ids) # post) rows ex =
        (map (\<lambda>m. if pk m = k then m\<lparr>match_id := Some mid\<rparr> else m) rows, insert mid ex)) \<and>
   ((\<forall>c \<in> set cands. lower (strip (fst c)) \<noteq> lower (strip opn)) \<longrightarrow>
      fill_missing k opn cands rows ex = (rows, ex))"
proof (intro conjI impI)
  assume "\<forall>c \<in> set cands. \<not> acceptable pn opn ex c"
  then show "candidate_loop dc fails k pn opn cands rows ex = (False, rows, ex)"
    by (rule candidate_none)
next
  assume a: "(\<forall>c \<in> set pre. \<not> acceptable pn opn ex c \<or>
                (\<exists>m. int_of_str (snd c) = Some m \<and> fails m)) \<and>
    acceptable pn opn ex (name, ids) \<and> int_of_str ids = Some mid \<and> \<not> fails mid"
  then have "candidate_loop True fails k pn opn (pre @ (name, ids) # post) rows ex =
      candidate_loop True fails k pn opn ((name, ids) # post) rows ex"
    by (intro candidate_prefix) simp
  also have "\<dots> = (True, attach k mid (lower (strip name) \<noteq> lower (strip opn)) rows, insert mid ex)"
    using a candidate_take [of pn opn ex name ids mid True fails k post rows] by simp
  finally show "candidate_loop True fails k pn opn (pre @ (name, ids) # post) rows ex =
        (True, attach k mid (lower (strip name) \<noteq> lower (strip opn)) rows, insert mid ex)" .
next
  assume a: "(\<forall>c \<in> set pre. \<not> acceptable pn opn ex c) \<and> acceptable pn opn ex (name, ids)"
  then obtain mid' where m: "int_of_str ids = Some mid'"
    by (auto simp: acceptable_def split: option.splits)
  have "candidate_loop False fails k pn opn (pre @ (name, ids) # post) rows ex =
      candidate_loop False fails k pn opn ((name, ids) # post) rows ex"
    using a by (intro candidate_prefix) simp
  also have "\<dots> = (True, rows, ex)"
    using a m candidate_take [of pn opn ex name ids mid' False fails k post rows] by simp
  finally show "candidate_loop False fails k pn opn (pre @ (name, ids) # post) rows ex
                  = (True, rows, ex)" .
next
  assume a: "(\<forall>c \<in> set pre. \<not> (lower (strip (fst c)) = lower (strip opn) \<and>
                         (\<exists>m. int_of_str (snd c) = Some m \<and> m \<notin> ex))) \<and>
    lower (strip name) = lower (strip opn) \<and> int_of_str ids = Some mid \<and> mid \<notin> ex"
  then have "fill_missing k opn (pre @ (name, ids) # post) rows ex =
      fill_missing k opn ((name, ids) # post) rows ex"
    by (intro fill_prefix) simp
  then show "fill_missing k opn (pre @ (name, ids) # post) rows ex =
        (map (\<lambda>m. if pk m = k then m\<lparr>match_id := Some mid\<rparr> else m) rows, insert mid ex)"
    using a by simp
next
  assume "\<forall>c \<in> set cands. lower (strip (fst c)) \<noteq> lower (strip opn)"
  then show "fill_missing k opn cands rows ex = (rows, ex)"
    by (induction cands) (simp_all add: fill_skip_name)
qed

theorem discovery_first_acceptable_witness:
  "candidate_loop True (\<lambda>m. False) 1 ''Alice'' ''Bob''
     [(''Carol'', ''777''), (''Bob'', ''555''), (''bob '', ''12345''), (''Bob'', ''999'')]
     [(alice_bob None None True False)\<lparr>match_id := None\<rparr>] {555}
     = (True, [alice_bob None None False False], {12345, 555}) \<and>
   candidate_loop False (\<lambda>m. False) 1 ''Alice'' ''Bob''
     [(''Carol'', ''777''), (''Bob'', ''555''), (''bob '', ''12345''), (''Bob'', ''999'')]
     [(alice_bob None None True False)\<lparr>match_id := None\<rparr>] {555}
     = (True, [(alice_bob None None True False)\<lparr>match_id := None\<rparr>], {555}) \<and>
   candidate_loop True (\<lambda>m. False) 1 ''Alice'' ''Bob'' [(''Carol'', ''777'')]
     [(alice_bob None None True False)\<lparr>match_id := None\<rparr>] {555}
     = (False, [(alice_bob None None True False)\<lparr>match_id := None\<rparr>], {555}) \<and>
   fill_missing 1 ''Bob''
     [(''Carol'', ''777''), (''Bob'', ''555''), (''bob '', ''12345''), (''Bob'', ''999'')]
     [(alice_bob None None True False)\<lparr>match_id := None\<rparr>] {555}
     = ([alice_bob None None True False], {12345, 555}) \<and>
   fill_missing 1 ''Bob'' [(''Carol'', ''777'')]
     [(alice_bob None None True False)\<lparr>match_id := None\<rparr>] {555}
     = ([(alice_bob None None True False)\<lparr>match_id := None\<rparr>], {555}) \<and>
   candidate_loop True (\<lambda>m. False) 1 ''Alice'' ''Bob'' [(''Alice'', ''12345'')]
     [(alice_bob None None False False)\<lparr>match_id := None\<rparr>] {}
     = (True, [alice_bob None None True False], {12345})"
  using
    discovery_first_acceptable [where pn = "''Alice''" and opn = "''Bob''" and ex = "{555}"
      and fails = "\<lambda>m. False" and k = 1 and dc = True
      and rows = "[(alice_bob None None True False)\<lparr>match_id := None\<rparr>]"
      and pre = "[(''Carol'', ''777''), (''Bob'', ''555'')]" and name = "''bob ''"
      and ids = "''12345''" and mid = 12345 and post = "[(''Bob'', ''999'')]"
      and cands = "[(''Carol'', ''777'')]"]
    discovery_first_acceptable [where pn = "''Alice''" and opn = "''Bob''" and ex = "{}"
      and fails = "\<lambda>m. False" and k = 1 and dc = True
      and rows = "[(alice_bob None None False False)\<lparr>match_id := None\<rparr>]"
      and pre = "[]" and name = "''Alice''"
      and ids = "''12345''" and mid = 12345 and post = "[]" and cands = "[]"]
  by (simp add: acceptable_def int_of_str_def digit_of_def lower_def lower_char_def strip_def
      isspace_def attach_def alice_bob_def)

text \<open>
  The claim as it was stated fails in the dashboard script: a candidate with the player's
  name and a new id, acceptable in \<open>process_groups\<close>, is passed over there and the row
  keeps no id; and a candidate with the opponent's name gives the row its id and leaves a
  switched flag that is true as it is.
\<close>

theorem dashboard_discovery_differs:
  "acceptable ''Alice'' ''Bob'' {} (''Alice'', ''12345'') \<and>
   fill_missing 1 ''Bob'' [(''Alice'', ''12345'')]
     [(alice_bob None None False False)\<lparr>match_id := None\<rparr>] {}
     = ([(alice_bob None None False False)\<lparr>match_id := None\<rparr>], {}) \<and>
   fill_missing 1 ''Bob'' [(''Bob'', ''12345'')]
     [(alice_bob None None True False)\<lparr>match_id := None\<rparr>] {}
     = ([alice_bob None None True False], {12345})"
  by (simp add: acceptable_def int_of_str_def digit_of_def lower_def lower_char_def strip_def
      isspace_def alice_bob_def)

section \<open>The page of a match is requested again when the first request gave nothing\<close>

text \<open>
  C7. The script's own description says that each match id is requested at most once.
  On a table with one open record whose page request fails, the run requests the page
  twice: once in the first loop of Step 1, which caches \<open>None\<close>, and once more in the
  score loop, whose test \<open>not html\<close> does not tell a cached \<open>None\<close> from a missing
  key. With a page in the cache the run requests it once.
\<close>

theorem page_requested_twice_when_absent:
  "requests (run_cycle 1 (\<lambda>n mid. RequestException) (\<lambda>mid. RequestException)
      (\<lambda>html names. None) [''Alice'', ''Bob''] [alice_bob (Some 3) (Some 4) False False])
     = [12345, 12345] \<and>
   requests (run_cycle 1 (\<lambda>n mid. Response True ''<b>Please Login</b>'') (\<lambda>mid. RequestException)
      (\<lambda>html names. None) [''Alice'', ''Bob''] [alice_bob (Some 3) (Some 4) False False])
     = [12345, 12345] \<and>
   requests (run_cycle 1 (\<lambda>n mid. Response True ''<html>'') (\<lambda>mid. RequestException)
      (\<lambda>html names. None) [''Alice'', ''Bob''] [alice_bob (Some 3) (Some 4) False False])
     = [12345]"
  by code_simp

section \<open>Winner detection\<close>

lemma scan_skip:
  "\<forall>x \<in> set xs. \<not> result_line x \<Longrightarrow>
   scan_for_winner p opp (xs @ ys) = scan_for_winner p opp ys"
  by (induction xs) simp_all

lemma detect_winner_last:
  assumes "result_line line" "\<forall>x \<in> set after. \<not> result_line x"
  shows "detect_winner p opp (before @ line # after) =
         Some (if str_find line ''Wins'' < 24 then p else opp)"
proof -
  have "detect_winner p opp (before @ line # after) =
        scan_for_winner p opp (rev after @ line # rev before)"
    by (simp add: detect_winner_def)
  also have "\<dots> = scan_for_winner p opp (line # rev before)"
    using assms(2) by (intro scan_skip) simp
  also have "\<dots> = Some (if str_find line ''Wins'' < 24 then p else opp)"
    using assms(1) by (simp add: mid_threshold_def)
  finally show ?thesis .
qed

lemma detect_winner_none:
  assumes "\<forall>x \<in> set text_lines. \<not> result_line x"
  shows "detect_winner p opp text_lines = None"
proof -
  have "scan_for_winner p opp (rev text_lines @ []) = scan_for_winner p opp []"
    using assms by (intro scan_skip) simp
  then show ?thesis by (simp add: detect_winner_def)
qed

lemma winner_step_keys:
  "k \<in> fst ` set (winner_step export e fin) \<Longrightarrow>
   k \<in> fst ` set fin \<or> (\<exists>pl op w. e = (k, pl, op) \<and> export_winner pl op (export k) = Some w)"
proof -
  obtain mid pl op where e: "e = (mid, pl, op)" by (cases e) auto
  assume "k \<in> fst ` set (winner_step export e fin)"
  then show ?thesis
    unfolding e winner_step_def prod.case
    by (auto simp: dom_update split: option.splits if_splits)
qed

lemma winner_phase_keys:
  "k \<in> fst ` set (winner_phase export ams fin) \<Longrightarrow>
   k \<in> fst ` set fin \<or>
   (\<exists>pl op w. (k, pl, op) \<in> set ams \<and> export_winner pl op (export k) = Some w)"
proof (induction ams arbitrary: fin)
  case Nil
  then show ?case by (simp add: winner_phase_def)
next
  case (Cons e ams)
  have "k \<in> fst ` set (winner_phase export ams (winner_step export e fin))"
    using Cons.prems by (simp add: winner_phase_def)
  then have "k \<in> fst ` set (winner_step export e fin) \<or>
   (\<exists>pl op w. (k, pl, op) \<in> set ams \<and> export_winner pl op (export k) = Some w)"
    by (rule Cons.IH)
  then show ?case
  proof
    assume "k \<in> fst ` set (winner_step export e fin)"
    from winner_step_keys [OF this] show ?thesis by auto
  next
    assume "\<exists>pl op w. (k, pl, op) \<in> set ams \<and> export_winner pl op (export k) = Some w"
    then show ?thesis by auto
  qed
qed

lemma final_step_other:
  assumes "fst e \<noteq> mid" "i < length rows" "match_id (rows ! i) = Some mid"
  shows "final_step e rows ! i = rows ! i"
proof -
  obtain k w where e: "e = (k, w)" by (cases e) auto
  have "set_winner col k rows ! i = rows ! i" for col
    using assms e by (simp add: set_winner_def)
  then show ?thesis
    unfolding e final_step_def prod.case by (simp split: option.splits)
qed

lemma final_results_other:
  "mid \<notin> fst ` set fin \<Longrightarrow> i < length rows \<Longrightarrow> match_id (rows ! i) = Some mid \<Longrightarrow>
   final_results fin rows ! i = rows ! i"
proof (induction fin arbitrary: rows)
  case Nil
  then show ?case by (simp add: final_results_def)
next
  case (Cons e fin)
  have ne: "fst e \<noteq> mid" and rest: "mid \<notin> fst ` set fin" using Cons.prems(1) by auto
  have same: "final_step e rows ! i = rows ! i"
    using ne Cons.prems(2,3) by (rule final_step_other)
  have len: "i < length (final_step e rows)" using Cons.prems(2) by (simp add: final_step_length)
  have "final_results fin (final_step e rows) ! i = final_step e rows ! i"
    using rest len same Cons.prems(3) by (intro Cons.IH) simp_all
  then show ?case using same by (simp add: final_results_def)
qed

text \<open>
  C8. The lines of the export are read from the last to the first. The last line that
  contains both \<open>and the match\<close> and \<open>Wins\<close> decides: the winner is the player, the
  side listed first, when the index of \<open>Wins\<close> in that line is below 24, and the
  opponent otherwise. With no such line there is no winner; the match id then does not
  enter \<open>finished_by_id\<close>, and the final results of the run leave every row with this
  match id as it is.
\<close>

theorem winner_detection:
  "(result_line line \<longleftrightarrow> str_in ''and the match'' line \<and> str_in ''Wins'' line) \<and>
   (result_line line \<and> (\<forall>x \<in> set after. \<not> result_line x) \<longrightarrow>
      0 \<le> str_find line ''Wins'' \<and>
      detect_winner p opp (before @ line # after) =
        Some (if str_find line ''Wins'' < 24 then p else opp)) \<and>
   ((\<forall>x \<in> set text_lines. \<not> result_line x) \<longrightarrow> detect_winner p opp text_lines = None) \<and>
   ((\<forall>e \<in> set all_match_ids.
        fst e = mid \<longrightarrow> export_winner (fst (snd e)) (snd (snd e)) (export mid) = None) \<longrightarrow>
      mid \<notin> fst ` set (winner_phase export all_match_ids []) \<and>
      (i < length rows \<and> match_id (rows ! i) = Some mid \<longrightarrow>
         final_results (winner_phase export all_match_ids []) rows ! i = rows ! i))"
proof (intro conjI impI)
  show "result_line line \<longleftrightarrow> str_in ''and the match'' line \<and> str_in ''Wins'' line"
    by (simp add: result_line_def)
next
  assume a: "result_line line \<and> (\<forall>x \<in> set after. \<not> result_line x)"
  then have "str_in ''Wins'' line" by (simp add: result_line_def)
  then show "0 \<le> str_find line ''Wins''" using str_find_in by blast
  show "detect_winner p opp (before @ line # after) =
        Some (if str_find line ''Wins'' < 24 then p else opp)"
    using a by (intro detect_winner_last) simp_all
next
  assume "\<forall>x \<in> set text_lines. \<not> result_line x"
  then show "detect_winner p opp text_lines = None" by (rule detect_winner_none)
next
  assume a: "\<forall>e \<in> set all_match_ids.
        fst e = mid \<longrightarrow> export_winner (fst (snd e)) (snd (snd e)) (export mid) = None"
  show k: "mid \<notin> fst ` set (winner_phase export all_match_ids [])"
  proof
    assume "mid \<in> fst ` set (winner_phase export all_match_ids [])"
    then obtain pl op w
      where "(mid, pl, op) \<in> set all_match_ids" "export_winner pl op (export mid) = Some w"
      using winner_phase_keys [of mid export all_match_ids "[]"] by auto
    then show False using a by force
  qed
  assume "i < length rows \<and> match_id (rows ! i) = Some mid"
  then show "final_results (winner_phase export all_match_ids []) rows ! i = rows ! i"
    using k by (intro final_results_other) simp_all
qed

theorem winner_detection_witness:
  "detect_winner ''Alice'' ''Bob''
     [''1) 31: 8/5 6/5'', ''  5) 6-1: Wins 1 point and the match'', ''''] = Some ''Alice'' \<and>
   detect_winner ''Alice'' ''Bob''
     [''  5) 6-1: 24/18 13/12          Wins 1 point and the match''] = Some ''Bob'' \<and>
   detect_winner ''Alice'' ''Bob'' [''1) 31: 8/5 6/5''] = None \<and>
   final_results (winner_phase (\<lambda>mid. Response True ''1) 31: 8/5 6/5'')
                    [(12345, ''Alice'', ''Bob'')] [])
     [alice_bob (Some 9) (Some 6) False False] ! 0 = alice_bob (Some 9) (Some 6) False False"
proof -
  have a: "result_line ''  5) 6-1: Wins 1 point and the match'' \<and>
           (\<forall>x \<in> set ['''']. \<not> result_line x)"
    by code_simp
  have a': "str_find ''  5) 6-1: Wins 1 point and the match'' ''Wins'' < 24"
    by code_simp
  have b: "result_line ''  5) 6-1: 24/18 13/12          Wins 1 point and the match'' \<and>
           (\<forall>x \<in> set []. \<not> result_line x)"
    by code_simp
  have b': "\<not> str_find ''  5) 6-1: 24/18 13/12          Wins 1 point and the match'' ''Wins'' < 24"
    by code_simp
  have c: "\<forall>x \<in> set [''1) 31: 8/5 6/5'']. \<not> result_line x"
    by code_simp
  have d: "\<forall>e \<in> set [(12345 :: int, ''Alice'', ''Bob'')].
             fst e = 12345 \<longrightarrow>
             export_winner (fst (snd e)) (snd (snd e)) (Response True ''1) 31: 8/5 6/5'') = None"
    by code_simp
  have e: "0 < length [alice_bob (Some 9) (Some 6) False False] \<and>
           match_id ([alice_bob (Some 9) (Some 6) False False] ! 0) = Some 12345"
    by (simp add: alice_bob_def)
  show ?thesis
    using winner_detection [where line = "''  5) 6-1: Wins 1 point and the match''"
        and after = "['''']" and before = "[''1) 31: 8/5 6/5'']" and p = "''Alice''"
        and opp = "''Bob''" and text_lines = "[''1) 31: 8/5 6/5'']" and mid = 12345
        and all_match_ids = "[(12345, ''Alice'', ''Bob'')]"
        and export = "\<lambda>mid. Response True ''1) 31: 8/5 6/5''" and i = 0
        and rows = "[alice_bob (Some 9) (Some 6) False False]"]
      winner_detection [where line = "''  5) 6-1: 24/18 13/12          Wins 1 point and the match''"
        and after = "[]" and before = "[]" and p = "''Alice''"
        and opp = "''Bob''" and text_lines = "[]" and mid = 12345
        and all_match_ids = "[]"
        and export = "\<lambda>mid. Response True ''1) 31: 8/5 6/5''" and i = 0
        and rows = "[]"]
      a a' b b' c d e
    by (simp del: set_simps)
qed

end
